theory Spec2Isabelle
  imports Complex_Main "HOL-Library.Sublist"
begin

section \<open>Python values\<close>

text \<open>
  The script is dynamically typed: the fetchers test their arguments with truthiness and
  \<^verbatim>\<open>isinstance\<close>, and every attribute of a fetched post goes through a truthiness test.
  Values are therefore one universe. A \<open>string\<close> stands for a Python \<^verbatim>\<open>str\<close>, one
  \<open>char\<close> per code point. A float is represented by the rational it denotes; only its
  comparison with zero is ever used. \<open>PObj\<close> is an opaque object without special methods
  (such as the author object of a post); \<open>PDict\<close> is a dict in insertion order.
\<close>

datatype pyval =
    PNone
  | PBool bool
  | PInt int
  | PFloat rat
  | PStr string
  | PList "pyval list"
  | PDict "(string \<times> pyval) list"
  | PObj nat

text \<open>Python's truth value of an object, as used by \<^verbatim>\<open>not x\<close> and \<^verbatim>\<open>a if x else b\<close>.\<close>

fun truthy :: "pyval \<Rightarrow> bool" where
  "truthy PNone = False"
| "truthy (PBool b) = b"
| "truthy (PInt n) = (n \<noteq> 0)"
| "truthy (PFloat r) = (r \<noteq> 0)"
| "truthy (PStr s) = (s \<noteq> [])"
| "truthy (PList xs) = (xs \<noteq> [])"
| "truthy (PDict kvs) = (kvs \<noteq> [])"
| "truthy (PObj a) = True"

fun isinstance_list :: "pyval \<Rightarrow> bool" where
  "isinstance_list (PList xs) = True"
| "isinstance_list v = False"

fun isinstance_str :: "pyval \<Rightarrow> bool" where
  "isinstance_str (PStr s) = True"
| "isinstance_str v = False"

text \<open>\<^verbatim>\<open>bool\<close> is a subclass of \<^verbatim>\<open>int\<close>: \<^verbatim>\<open>isinstance(True, int)\<close> holds.\<close>

fun isinstance_int :: "pyval \<Rightarrow> bool" where
  "isinstance_int (PInt n) = True"
| "isinstance_int (PBool b) = True"
| "isinstance_int v = False"

text \<open>
  \<^verbatim>\<open>limit <= 0\<close>. The source evaluates it only behind \<^verbatim>\<open>not isinstance(limit, int) or\<close>,
  so only the two integer cases are ever reached.
\<close>

fun le_zero :: "pyval \<Rightarrow> bool" where
  "le_zero (PInt n) = (n \<le> 0)"
| "le_zero (PBool b) = (\<not> b)"
| "le_zero v = False"

text \<open>The elements a \<^verbatim>\<open>for\<close> loop over a list visits.\<close>

fun elements :: "pyval \<Rightarrow> pyval list" where
  "elements (PList xs) = xs"
| "elements v = []"

text \<open>\<^verbatim>\<open>d[k]\<close> on a dict; \<open>None\<close> when the value is no dict or has no such key.\<close>

fun py_get :: "pyval \<Rightarrow> string \<Rightarrow> pyval option" where
  "py_get (PDict kvs) k = map_of kvs k"
| "py_get v k = None"

section \<open>Exceptions, console output, the API client\<close>

text \<open>
  \<open>KeyboardInterrupt\<close> stands for the exceptions that are not subclasses of
  \<^verbatim>\<open>Exception\<close>; \<open>OtherException\<close> for any other subclass of \<^verbatim>\<open>Exception\<close>
  (the network errors of the client library among them).
\<close>

datatype exn =
    PRAWException
  | ValueError string
  | FileNotFoundError
  | TypeError
  | KeyError string
  | OtherException
  | KeyboardInterrupt

text \<open>A request to the remote API: forum and limit, and for a search the query.\<close>

datatype request =
    Hot pyval pyval
  | Search pyval pyval pyval

text \<open>One constructor per \<^verbatim>\<open>print\<close> of the script, with the values it formats.\<close>

datatype line =
    Downloading_hot pyval pyval
  | Downloading_keyword pyval pyval
  | Successfully_downloaded nat pyval
  | Reddit_API_error exn
  | Input_validation_error exn
  | File_error exn
  | Unexpected_error exn
  | No_posts_to_save
  | Removed_duplicates int
  | Saving_cleaned nat string
  | Data_saved string
  | Final_shape nat nat
  | Columns "string list"

text \<open>
  A fetched post: the attributes the fetchers read, and \<open>subreddit_attr\<close>, the post's own
  forum attribute, which they never read.
\<close>

record post =
  title :: pyval
  score :: pyval
  upvote_ratio :: pyval
  num_comments :: pyval
  author :: pyval
  url :: pyval
  permalink :: pyval
  created_utc :: pyval
  is_self :: pyval
  selftext :: pyval
  link_flair_text :: pyval
  domain :: pyval
  subreddit_attr :: pyval

text \<open>
  What iterating over a listing does: it yields posts in order and then either ends or
  raises. The client answers its \<open>i\<close>-th request (counted from 0) as it pleases.
\<close>

record listing =
  yielded :: "post list"
  raised :: "exn option"

type_synonym client = "nat \<Rightarrow> request \<Rightarrow> listing"

section \<open>The fetchers\<close>

text \<open>\<^verbatim>\<open>v if v else None\<close>\<close>

definition or_none :: "pyval \<Rightarrow> pyval" where
  "or_none v = (if truthy v then v else PNone)"

text \<open>\<^verbatim>\<open>v[:500]\<close>: a slice of a string or a list; any other value is not subscriptable.\<close>

fun slice500 :: "pyval \<Rightarrow> exn + pyval" where
  "slice500 (PStr s) = Inr (PStr (take 500 s))"
| "slice500 (PList xs) = Inr (PList (take 500 xs))"
| "slice500 v = Inl TypeError"

text \<open>\<^verbatim>\<open>post.selftext[:500] if post.selftext else None\<close>\<close>

definition selftext_field :: "post \<Rightarrow> exn + pyval" where
  "selftext_field p = (if truthy (selftext p) then slice500 (selftext p) else Inr PNone)"

text \<open>The dict literal of \<^verbatim>\<open>download_hot_posts\<close>, lines 41 to 55.\<close>

definition hot_record :: "pyval \<Rightarrow> post \<Rightarrow> exn + pyval" where
  "hot_record subreddit_name p =
     (case selftext_field p of
        Inl e \<Rightarrow> Inl e
      | Inr st \<Rightarrow> Inr (PDict
          [(''title'', or_none (title p)),
           (''score'', or_none (score p)),
           (''upvote_ratio'', or_none (upvote_ratio p)),
           (''num_comments'', or_none (num_comments p)),
           (''author'', or_none (author p)),
           (''subreddit'', subreddit_name),
           (''url'', or_none (url p)),
           (''permalink'', or_none (permalink p)),
           (''created_utc'', or_none (created_utc p)),
           (''is_self'', or_none (is_self p)),
           (''selftext'', st),
           (''flair'', or_none (link_flair_text p)),
           (''domain'', or_none (domain p))]))"

text \<open>The dict literal of \<^verbatim>\<open>search_posts\<close>, lines 113 to 128.\<close>

definition search_record :: "pyval \<Rightarrow> pyval \<Rightarrow> post \<Rightarrow> exn + pyval" where
  "search_record query subreddit_name p =
     (case selftext_field p of
        Inl e \<Rightarrow> Inl e
      | Inr st \<Rightarrow> Inr (PDict
          [(''title'', or_none (title p)),
           (''score'', or_none (score p)),
           (''upvote_ratio'', or_none (upvote_ratio p)),
           (''num_comments'', or_none (num_comments p)),
           (''author'', or_none (author p)),
           (''subreddit'', subreddit_name),
           (''url'', or_none (url p)),
           (''permalink'', or_none (permalink p)),
           (''created_utc'', or_none (created_utc p)),
           (''is_self'', or_none (is_self p)),
           (''selftext'', st),
           (''flair'', or_none (link_flair_text p)),
           (''domain'', or_none (domain p)),
           (''search_query'', query)]))"

text \<open>
  The inner loop \<^verbatim>\<open>for post in posts: ....append({...})\<close> over the posts a listing
  yields: the records in order, or the first exception a dict literal raises.
\<close>

fun build_records :: "(post \<Rightarrow> exn + pyval) \<Rightarrow> post list \<Rightarrow> exn + pyval list" where
  "build_records mk [] = Inr []"
| "build_records mk (p # ps) =
     (case mk p of
        Inl e \<Rightarrow> Inl e
      | Inr r \<Rightarrow> (case build_records mk ps of
                   Inl e \<Rightarrow> Inl e
                 | Inr rs \<Rightarrow> Inr (r # rs)))"

text \<open>
  The outer loop of the \<^verbatim>\<open>try\<close> body, shared by both fetchers, which differ in the
  request (\<open>req\<close>), the progress line (\<open>announce\<close>) and the dict literal (\<open>mk\<close>). The state is
  the list built so far, the lines printed and the requests made. An exception leaves the
  loop with what was printed and requested up to then.
\<close>

fun fetch_forums ::
  "client \<Rightarrow> (pyval \<Rightarrow> request) \<Rightarrow> (pyval \<Rightarrow> line) \<Rightarrow> (pyval \<Rightarrow> post \<Rightarrow> exn + pyval) \<Rightarrow>
   pyval list \<Rightarrow> pyval list \<Rightarrow> line list \<Rightarrow> request list \<Rightarrow>
   (exn + pyval list) \<times> line list \<times> request list" where
  "fetch_forums reddit req announce mk [] acc printed made = (Inr acc, printed, made)"
| "fetch_forums reddit req announce mk (subreddit_name # rest) acc printed made =
     (let posts = reddit (length made) (req subreddit_name);
          made' = made @ [req subreddit_name];
          printed' = printed @ [announce subreddit_name]
      in case build_records (mk subreddit_name) (yielded posts) of
           Inl e \<Rightarrow> (Inl e, printed', made')
         | Inr rs \<Rightarrow>
             (case raised posts of
                Some e \<Rightarrow> (Inl e, printed', made')
              | None \<Rightarrow>
                  fetch_forums reddit req announce mk rest (acc @ rs)
                    (printed' @ [Successfully_downloaded (length rs) subreddit_name]) made'))"

text \<open>
  What a call of a fetcher does: it returns a value or lets an exception escape to the
  caller (\<open>Inl\<close>), having printed \<open>out\<close> and made the requests \<open>calls\<close>.
\<close>

record fetch_run =
  result :: "exn + pyval"
  out :: "line list"
  calls :: "request list"

text \<open>A \<^verbatim>\<open>raise\<close> of the input validation, which stands before the \<^verbatim>\<open>try\<close>.\<close>

definition raise_early :: "exn \<Rightarrow> fetch_run" where
  "raise_early e = \<lparr>result = Inl e, out = [], calls = []\<rparr>"

text \<open>
  The \<^verbatim>\<open>try\<close> statement around the loop: the list on success; the \<^verbatim>\<open>except\<close> clauses
  in their order otherwise. The last clause, \<^verbatim>\<open>except Exception\<close>, does not catch
  \<open>KeyboardInterrupt\<close>.
\<close>

fun try_except :: "(exn + pyval list) \<times> line list \<times> request list \<Rightarrow> fetch_run" where
  "try_except (Inr posts, printed, made) =
     \<lparr>result = Inr (PList posts), out = printed, calls = made\<rparr>"
| "try_except (Inl PRAWException, printed, made) =
     \<lparr>result = Inr (PBool False), out = printed @ [Reddit_API_error PRAWException], calls = made\<rparr>"
| "try_except (Inl (ValueError m), printed, made) =
     \<lparr>result = Inr (PBool False), out = printed @ [Input_validation_error (ValueError m)], calls = made\<rparr>"
| "try_except (Inl FileNotFoundError, printed, made) =
     \<lparr>result = Inr (PBool False), out = printed @ [File_error FileNotFoundError], calls = made\<rparr>"
| "try_except (Inl KeyboardInterrupt, printed, made) =
     \<lparr>result = Inl KeyboardInterrupt, out = printed, calls = made\<rparr>"
| "try_except (Inl e, printed, made) =
     \<lparr>result = Inr (PBool False), out = printed @ [Unexpected_error e], calls = made\<rparr>"

definition download_hot_posts :: "client \<Rightarrow> pyval \<Rightarrow> pyval \<Rightarrow> fetch_run" where
  "download_hot_posts reddit subreddit_names limit =
     (if \<not> truthy subreddit_names \<or> \<not> isinstance_list subreddit_names
      then raise_early (ValueError ''Subreddit names must be a non-empty list'')
      else if list_ex (\<lambda>subreddit_name. \<not> truthy subreddit_name \<or> \<not> isinstance_str subreddit_name)
                (elements subreddit_names)
      then raise_early (ValueError ''Subreddit name must be a non-empty string'')
      else if \<not> isinstance_int limit \<or> le_zero limit
      then raise_early (ValueError ''Limit must be a positive integer'')
      else try_except
             (fetch_forums reddit (\<lambda>subreddit_name. Hot subreddit_name limit)
                (Downloading_hot limit) hot_record (elements subreddit_names) [] [] []))"

definition search_posts :: "client \<Rightarrow> pyval \<Rightarrow> pyval \<Rightarrow> pyval \<Rightarrow> fetch_run" where
  "search_posts reddit query subreddit_names limit =
     (if \<not> truthy query \<or> \<not> isinstance_str query
      then raise_early (ValueError ''Query must be a non-empty string'')
      else if \<not> truthy subreddit_names \<or> \<not> isinstance_list subreddit_names
      then raise_early (ValueError ''Subreddit names must be a non-empty list'')
      else if list_ex (\<lambda>subreddit_name. \<not> truthy subreddit_name \<or> \<not> isinstance_str subreddit_name)
                (elements subreddit_names)
      then raise_early (ValueError ''Subreddit name must be a non-empty string'')
      else if \<not> isinstance_int limit \<or> le_zero limit
      then raise_early (ValueError ''Limit must be a positive integer'')
      else try_except
             (fetch_forums reddit (\<lambda>subreddit_name. Search subreddit_name query limit)
                (Downloading_keyword limit) (search_record query) (elements subreddit_names) [] [] []))"

section \<open>The persister\<close>

text \<open>
  A table: the column names and, per row, one cell per column. A cell is a value, or
  \<open>None\<close> for the blank the table library puts where a dict lacks the column's key.
\<close>

record dataframe =
  columns :: "string list"
  rows :: "pyval option list list"

text \<open>The files on disk. A written file holds the header row and the rows, no row index.\<close>

type_synonym files = "string \<rightharpoonup> dataframe"

text \<open>
  Keeping the first occurrence of every key, the way the table library marks duplicates
  with \<^verbatim>\<open>keep='first'\<close>: one pass with the keys seen so far.
\<close>

fun keep_first :: "('a \<Rightarrow> 'k) \<Rightarrow> 'k list \<Rightarrow> 'a list \<Rightarrow> 'a list" where
  "keep_first key seen [] = []"
| "keep_first key seen (x # xs) =
     (if key x \<in> set seen then keep_first key seen xs
      else x # keep_first key (key x # seen) xs)"

text \<open>A dict has every key once.\<close>

fun is_dict :: "pyval \<Rightarrow> bool" where
  "is_dict (PDict kvs) = distinct (map fst kvs)"
| "is_dict v = False"

fun keys :: "pyval \<Rightarrow> string list" where
  "keys (PDict kvs) = map fst kvs"
| "keys v = []"

definition frame_row :: "string list \<Rightarrow> pyval \<Rightarrow> pyval option list" where
  "frame_row cols r = map (py_get r) cols"

text \<open>
  \<^verbatim>\<open>pd.DataFrame(all_posts)\<close> for a list of dicts: one row per dict, the columns are the
  keys in the order of their first appearance. What the constructor does with any other
  value depends on the library's type inference and is not modelled: \<open>None\<close>.
\<close>

definition DataFrame :: "pyval \<Rightarrow> dataframe option" where
  "DataFrame data =
     (case data of
        PList rs \<Rightarrow>
          if list_all is_dict rs
          then (let cols = keep_first id [] (concat (map keys rs))
                in Some \<lparr>columns = cols, rows = map (frame_row cols) rs\<rparr>)
          else None
      | _ \<Rightarrow> None)"

definition cell :: "dataframe \<Rightarrow> string \<Rightarrow> pyval option list \<Rightarrow> pyval option" where
  "cell df c row = (case map_of (zip (columns df) row) c of Some v \<Rightarrow> v | None \<Rightarrow> None)"

text \<open>
  The keys whose comparison does not depend on the column's inferred type: a string and
  \<^verbatim>\<open>None\<close>. Two \<^verbatim>\<open>None\<close> cells are the same key.
\<close>

fun plain_key :: "pyval option \<Rightarrow> bool" where
  "plain_key (Some (PStr s)) = True"
| "plain_key (Some PNone) = True"
| "plain_key v = False"

text \<open>
  \<^verbatim>\<open>df.drop_duplicates(subset=..., inplace=True)\<close>: a \<^verbatim>\<open>KeyError\<close> when the table has
  no such column; rows with an earlier row of the same key are dropped. Columns with other
  keys than strings and \<^verbatim>\<open>None\<close> are not modelled: \<open>None\<close>.
\<close>

definition drop_duplicates :: "string \<Rightarrow> dataframe \<Rightarrow> (exn + dataframe) option" where
  "drop_duplicates col df =
     (if col \<notin> set (columns df) then Some (Inl (KeyError col))
      else if \<not> list_all (\<lambda>row. plain_key (cell df col row)) (rows df) then None
      else Some (Inr (df\<lparr>rows := keep_first (cell df col) [] (rows df)\<rparr>)))"

text \<open>
  What a call of the persister does: it returns a table or \<^verbatim>\<open>None\<close>, or raises, having
  printed \<open>console\<close> and left the files \<open>disk\<close>.
\<close>

record save_run =
  returned :: "exn + dataframe option"
  console :: "line list"
  disk :: files

text \<open>
  \<^verbatim>\<open>save_to_csv\<close>. The result is \<open>None\<close> where the table library is not modelled. Writing
  the file is taken to succeed.
\<close>

definition save_to_csv :: "pyval \<Rightarrow> string \<Rightarrow> files \<Rightarrow> save_run option" where
  "save_to_csv all_posts filename fs =
     (if \<not> truthy all_posts
      then Some \<lparr>returned = Inr None, console = [No_posts_to_save], disk = fs\<rparr>
      else case DataFrame all_posts of
             None \<Rightarrow> None
           | Some df \<Rightarrow>
               (case drop_duplicates ''permalink'' df of
                  None \<Rightarrow> None
                | Some (Inl e) \<Rightarrow> Some \<lparr>returned = Inl e, console = [], disk = fs\<rparr>
                | Some (Inr df') \<Rightarrow>
                    (let before = length (rows df); after = length (rows df')
                     in Some \<lparr>returned = Inr (Some df'),
                              console = [Removed_duplicates (int before - int after),
                                         Saving_cleaned after filename,
                                         Data_saved filename],
                              disk = fs(filename \<mapsto> df')\<rparr>)))"

section \<open>The driver\<close>

text \<open>
  \<^verbatim>\<open>a + b\<close>: concatenation of two lists or two strings, addition of integers (a
  \<^verbatim>\<open>bool\<close> counting as 0 or 1), a \<^verbatim>\<open>TypeError\<close> for operands that do not fit.
  Floating-point addition is not modelled: \<open>None\<close>.
\<close>

fun as_int :: "pyval \<Rightarrow> int option" where
  "as_int (PInt n) = Some n"
| "as_int (PBool b) = Some (if b then 1 else 0)"
| "as_int v = None"

fun is_float :: "pyval \<Rightarrow> bool" where
  "is_float (PFloat r) = True"
| "is_float v = False"

definition py_add :: "pyval \<Rightarrow> pyval \<Rightarrow> (exn + pyval) option" where
  "py_add a b =
     (case (a, b) of
        (PList xs, PList ys) \<Rightarrow> Some (Inr (PList (xs @ ys)))
      | (PStr s, PStr t) \<Rightarrow> Some (Inr (PStr (s @ t)))
      | _ \<Rightarrow>
          (case (as_int a, as_int b) of
             (Some m, Some n) \<Rightarrow> Some (Inr (PInt (m + n)))
           | _ \<Rightarrow>
               if (is_float a \<and> (is_float b \<or> as_int b \<noteq> None)) \<or> (is_float b \<and> as_int a \<noteq> None)
               then None
               else Some (Inl TypeError)))"

text \<open>
  What a run of the driver does from the fetches on: it ends normally or with an
  unhandled exception, having printed \<open>transcript\<close> and left the files \<open>disk_after\<close>.
\<close>

record driver_run =
  ended :: "exn + unit"
  transcript :: "line list"
  disk_after :: files

text \<open>Lines 212 to 220: concatenate the two return values, save, print the summary.\<close>

definition combine_and_save :: "pyval \<Rightarrow> pyval \<Rightarrow> files \<Rightarrow> driver_run option" where
  "combine_and_save hot_posts search_results fs =
     (case py_add hot_posts search_results of
        None \<Rightarrow> None
      | Some (Inl e) \<Rightarrow> Some \<lparr>ended = Inl e, transcript = [], disk_after = fs\<rparr>
      | Some (Inr all_collected) \<Rightarrow>
          (case save_to_csv all_collected ''reddit_data.csv'' fs of
             None \<Rightarrow> None
           | Some s \<Rightarrow>
               (case returned s of
                  Inl e \<Rightarrow> Some \<lparr>ended = Inl e, transcript = console s, disk_after = disk s\<rparr>
                | Inr None \<Rightarrow> Some \<lparr>ended = Inr (), transcript = console s, disk_after = disk s\<rparr>
                | Inr (Some final_df) \<Rightarrow>
                    Some \<lparr>ended = Inr (),
                          transcript = console s @
                            [Final_shape (length (rows final_df)) (length (columns final_df)),
                             Columns (columns final_df)],
                          disk_after = disk s\<rparr>)))"

definition subreddits :: pyval where
  "subreddits = PList [PStr ''MachineLearning'', PStr ''Artificial'', PStr ''OpenAI'']"

text \<open>
  Lines 205 to 220. Both fetchers are called with the default limit 10; the second one
  talks to the client after the requests of the first.
\<close>

definition driver :: "client \<Rightarrow> files \<Rightarrow> driver_run option" where
  "driver reddit fs =
     (let h = download_hot_posts reddit subreddits (PInt 10)
      in case result h of
           Inl e \<Rightarrow> Some \<lparr>ended = Inl e, transcript = out h, disk_after = fs\<rparr>
         | Inr hot_posts \<Rightarrow>
             (let s = search_posts (\<lambda>i. reddit (length (calls h) + i)) (PStr ''GPT-4'')
                        subreddits (PInt 10)
              in case result s of
                   Inl e \<Rightarrow> Some \<lparr>ended = Inl e, transcript = out h @ out s, disk_after = fs\<rparr>
                 | Inr search_results \<Rightarrow>
                     map_option (\<lambda>d. d\<lparr>transcript := out h @ out s @ transcript d\<rparr>)
                       (combine_and_save hot_posts search_results fs)))"

section \<open>Notions of the specification\<close>

text \<open>A forum name as the specification wants it: a non-empty string.\<close>

fun nonempty_string :: "pyval \<Rightarrow> bool" where
  "nonempty_string (PStr s) = (s \<noteq> [])"
| "nonempty_string v = False"

text \<open>
  The invalid forum-name arguments: no list, the empty list, a list with a name that is no
  string or is empty.
\<close>

fun forum_names_invalid :: "pyval \<Rightarrow> bool" where
  "forum_names_invalid (PList xs) = (xs = [] \<or> list_ex (\<lambda>x. \<not> nonempty_string x) xs)"
| "forum_names_invalid v = True"

text \<open>
  The invalid limits: zero, negative, no integer. Python's integers include the two
  booleans, \<^verbatim>\<open>False\<close> being 0 and \<^verbatim>\<open>True\<close> being 1.
\<close>

fun limit_invalid :: "pyval \<Rightarrow> bool" where
  "limit_invalid (PInt n) = (n \<le> 0)"
| "limit_invalid (PBool b) = (\<not> b)"
| "limit_invalid v = True"

text \<open>
  The (forum, post) pairs of a fetch in forum-iteration order and, within a forum, in the
  order the listing yields them; the forum at position \<open>j\<close> is served by request \<open>i + j\<close>.
\<close>

fun fetched :: "client \<Rightarrow> (pyval \<Rightarrow> request) \<Rightarrow> nat \<Rightarrow> pyval list \<Rightarrow> (pyval \<times> post) list" where
  "fetched reddit req i [] = []"
| "fetched reddit req i (name # names) =
     map (Pair name) (yielded (reddit i (req name))) @ fetched reddit req (Suc i) names"

text \<open>
  A post record of the data model as far as the persister looks at it: a dict whose
  \<open>permalink\<close> is a text or the missing marker.
\<close>

fun post_record :: "pyval \<Rightarrow> bool" where
  "post_record (PDict kvs) = (distinct (map fst kvs) \<and> plain_key (map_of kvs ''permalink''))"
| "post_record v = False"

text \<open>
  First occurrence kept, in the words of the specification: a record stays, and every
  later record with its key goes.
\<close>

fun first_occurrences :: "('a \<Rightarrow> 'k) \<Rightarrow> 'a list \<Rightarrow> 'a list" where
  "first_occurrences key [] = []"
| "first_occurrences key (x # xs) = x # first_occurrences key (filter (\<lambda>y. key y \<noteq> key x) xs)"

text \<open>A client whose every request fails with a network error.\<close>

definition unreachable_api :: client where
  "unreachable_api i r = \<lparr>yielded = [], raised = Some OtherException\<rparr>"

text \<open>A post with a zero score and ratio, and a client that yields it on every request.\<close>

definition sample_post :: post where
  "sample_post =
     \<lparr>title = PStr ''Hello'', score = PInt 0, upvote_ratio = PFloat 0, num_comments = PInt 3,
      author = PObj 7, url = PStr ''http://example.org/a'', permalink = PStr ''/r/python/1'',
      created_utc = PFloat 1700000000, is_self = PBool False, selftext = PStr ''body'',
      link_flair_text = PNone, domain = PStr ''example.org'',
      subreddit_attr = PStr ''elsewhere''\<rparr>"

definition one_post_api :: client where
  "one_post_api i r = \<lparr>yielded = [sample_post], raised = None\<rparr>"

text \<open>An empty disk, and four records of which two lack a permalink and two share one.\<close>

definition no_files :: files where
  "no_files = Map.empty"

definition sample_records :: "pyval list" where
  "sample_records =
     [PDict [(''title'', PStr ''a''), (''permalink'', PNone)],
      PDict [(''title'', PStr ''b''), (''permalink'', PStr ''/r/python/1'')],
      PDict [(''title'', PStr ''c''), (''permalink'', PNone), (''search_query'', PStr ''GPT-4'')],
      PDict [(''title'', PStr ''d''), (''permalink'', PStr ''/r/python/1'')]]"

section \<open>Input validation\<close>

lemma rejected_names:
  "forum_names_invalid v \<longleftrightarrow>
     \<not> truthy v \<or> \<not> isinstance_list v \<or>
     list_ex (\<lambda>n. \<not> truthy n \<or> \<not> isinstance_str n) (elements v)"
proof (cases v)
  case (PList xs)
  have "\<And>x. (\<not> nonempty_string x) = (\<not> truthy x \<or> \<not> isinstance_str x)"
    subgoal for x by (cases x) auto
    done
  then show ?thesis using PList by (auto simp: list_ex_iff)
qed auto

lemma rejected_limit: "limit_invalid v \<longleftrightarrow> \<not> isinstance_int v \<or> le_zero v"
  by (cases v) auto

text \<open>
  Claim C1 says that a fetcher catches its own input-validation error and returns
  \<^verbatim>\<open>False\<close> after logging. The validation stands before the \<^verbatim>\<open>try\<close>, so the
  \<^verbatim>\<open>except ValueError\<close> clause that prints "Input validation error" never sees it: on an
  empty forum list, a zero limit or an empty forum name the \<^verbatim>\<open>ValueError\<close> reaches the
  caller and nothing is printed.
\<close>

theorem validation_error_escapes_the_fetcher:
  "result (download_hot_posts reddit (PList []) (PInt 10))
     = Inl (ValueError ''Subreddit names must be a non-empty list'')
   \<and> out (download_hot_posts reddit (PList []) (PInt 10)) = []
   \<and> result (download_hot_posts reddit (PList [PStr ''python'']) (PInt 0))
     = Inl (ValueError ''Limit must be a positive integer'')
   \<and> result (search_posts reddit (PStr ''GPT-4'') (PList [PStr []]) (PInt 10))
     = Inl (ValueError ''Subreddit name must be a non-empty string'')
   \<and> out (search_posts reddit (PStr ''GPT-4'') (PList [PStr []]) (PInt 10)) = []"
  by (simp add: download_hot_posts_def search_posts_def raise_early_def)

theorem validation_error_escapes_the_fetcher_witness:
  "result (download_hot_posts unreachable_api (PList []) (PInt 10)) \<noteq> Inr (PBool False)
   \<and> out (download_hot_posts unreachable_api (PList []) (PInt 10)) = []"
  using validation_error_escapes_the_fetcher [of unreachable_api]
  by simp

text \<open>
  Claim C2: on every invalid input (the forum-name argument is no list, is the empty list
  or holds a name that is no string or is empty; the limit is zero, negative or no
  integer) each fetcher raises, and it has made no request to the API by then. The search
  fetcher does so whatever its query is.
\<close>

theorem invalid_input_raises_before_any_request:
  assumes "forum_names_invalid subreddit_names \<or> limit_invalid limit"
  shows "(\<exists>m. result (download_hot_posts reddit subreddit_names limit) = Inl (ValueError m))
       \<and> calls (download_hot_posts reddit subreddit_names limit) = []
       \<and> (\<exists>m. result (search_posts reddit query subreddit_names limit) = Inl (ValueError m))
       \<and> calls (search_posts reddit query subreddit_names limit) = []"
  using assms
  by (auto simp: download_hot_posts_def search_posts_def raise_early_def
      rejected_names rejected_limit)

theorem invalid_input_raises_before_any_request_witness:
  "(forum_names_invalid (PList []) \<or> limit_invalid (PInt 10))
   \<and> (\<exists>m. result (download_hot_posts unreachable_api (PList []) (PInt 10)) = Inl (ValueError m))
   \<and> calls (download_hot_posts unreachable_api (PList []) (PInt 10)) = []
   \<and> (\<exists>m. result (search_posts unreachable_api (PStr ''GPT-4'') (PList []) (PInt 10))
          = Inl (ValueError m))
   \<and> calls (search_posts unreachable_api (PStr ''GPT-4'') (PList []) (PInt 10)) = []"
  using invalid_input_raises_before_any_request
    [of "PList []" "PInt 10" unreachable_api "PStr ''GPT-4''"]
  by simp

section \<open>The records of a successful fetch\<close>

lemma build_records_Inr:
  "build_records mk ps = Inr rs \<Longrightarrow> list_all2 (\<lambda>r p. mk p = Inr r) rs ps"
  by (induction ps arbitrary: rs) (auto split: sum.splits)

lemma build_records_total:
  "\<forall>p\<in>set ps. \<exists>r. mk p = Inr r \<Longrightarrow> \<exists>rs. build_records mk ps = Inr rs"
  by (induction ps) (auto split: sum.splits)

lemma fetch_forums_Inr:
  "fetch_forums reddit req announce mk names acc printed made = (Inr rs, printed', made')
   \<Longrightarrow> \<exists>new. rs = acc @ new
         \<and> list_all2 (\<lambda>r (n, p). mk n p = Inr r) new (fetched reddit req (length made) names)"
proof (induction names arbitrary: acc printed made)
  case Nil
  then show ?case by simp
next
  case (Cons name names)
  let ?l = "reddit (length made) (req name)"
  from Cons.prems obtain rs0 where
    b: "build_records (mk name) (yielded ?l) = Inr rs0" and
    rest: "fetch_forums reddit req announce mk names (acc @ rs0)
             (printed @ [announce name] @ [Successfully_downloaded (length rs0) name])
             (made @ [req name]) = (Inr rs, printed', made')"
    by (auto simp: Let_def split: sum.splits option.splits)
  from Cons.IH [OF rest] obtain new where
    n: "rs = (acc @ rs0) @ new" and
    a: "list_all2 (\<lambda>r (n, p). mk n p = Inr r) new (fetched reddit req (Suc (length made)) names)"
    by auto
  from build_records_Inr [OF b]
  have "list_all2 (\<lambda>r (n, p). mk n p = Inr r) rs0 (map (Pair name) (yielded ?l))"
    by (simp add: list_all2_map2)
  with a have "list_all2 (\<lambda>r (n, p). mk n p = Inr r) (rs0 @ new)
      (fetched reddit req (length made) (name # names))"
    by (simp add: list_all2_appendI)
  with n show ?case by auto
qed

lemma fetch_forums_total:
  assumes "\<forall>i r. raised (reddit i r) = None"
    and "\<forall>i r. \<forall>p\<in>set (yielded (reddit i r)). \<forall>n. \<exists>x. mk n p = Inr x"
  shows "\<exists>rs printed' made'.
           fetch_forums reddit req announce mk names acc printed made = (Inr rs, printed', made')"
proof (induction names arbitrary: acc printed made)
  case Nil
  show ?case by simp
next
  case (Cons name names)
  let ?l = "reddit (length made) (req name)"
  from assms(2) have "\<forall>p\<in>set (yielded ?l). \<exists>x. mk name p = Inr x" by blast
  from build_records_total [OF this] obtain rs0 where
    "build_records (mk name) (yielded ?l) = Inr rs0" by blast
  moreover from assms(1) have "raised ?l = None" by blast
  ultimately show ?case using Cons.IH by (simp add: Let_def)
qed

lemma length_fetched:
  assumes "\<forall>i r. length (yielded (reddit i r)) \<le> k"
  shows "length (fetched reddit req i names) \<le> k * length names"
proof (induction names arbitrary: i)
  case Nil
  show ?case by simp
next
  case (Cons name names)
  from assms have "length (yielded (reddit i (req name))) \<le> k" by blast
  with Cons.IH [of "Suc i"] show ?case by simp
qed

lemma try_except_list:
  "result (try_except t) = Inr (PList rs) \<Longrightarrow> \<exists>printed made. t = (Inr rs, printed, made)"
  by (cases t rule: try_except.cases) auto

lemma hot_posts_returned:
  assumes "result (download_hot_posts reddit subreddit_names limit) = Inr (PList rs)"
  shows "list_all2 (\<lambda>r (n, p). hot_record n p = Inr r) rs
           (fetched reddit (\<lambda>n. Hot n limit) 0 (elements subreddit_names))"
proof -
  from assms have "result (try_except
      (fetch_forums reddit (\<lambda>n. Hot n limit) (Downloading_hot limit) hot_record
         (elements subreddit_names) [] [] [])) = Inr (PList rs)"
    by (auto simp: download_hot_posts_def raise_early_def split: if_splits)
  from try_except_list [OF this] fetch_forums_Inr show ?thesis by fastforce
qed

lemma search_posts_returned:
  assumes "result (search_posts reddit query subreddit_names limit) = Inr (PList rs)"
  shows "list_all2 (\<lambda>r (n, p). search_record query n p = Inr r) rs
           (fetched reddit (\<lambda>n. Search n query limit) 0 (elements subreddit_names))"
proof -
  from assms have "result (try_except
      (fetch_forums reddit (\<lambda>n. Search n query limit) (Downloading_keyword limit)
         (search_record query) (elements subreddit_names) [] [] [])) = Inr (PList rs)"
    by (auto simp: search_posts_def raise_early_def split: if_splits)
  from try_except_list [OF this] fetch_forums_Inr show ?thesis by fastforce
qed

lemma selftext_field_Inr:
  "isinstance_str (selftext p) \<or> \<not> truthy (selftext p) \<Longrightarrow> \<exists>st. selftext_field p = Inr st"
  by (cases "selftext p") (auto simp: selftext_field_def)

lemma hot_record_Inr:
  "isinstance_str (selftext p) \<or> \<not> truthy (selftext p) \<Longrightarrow> \<exists>x. hot_record n p = Inr x"
  using selftext_field_Inr [of p] by (auto simp: hot_record_def)

lemma search_record_Inr:
  "isinstance_str (selftext p) \<or> \<not> truthy (selftext p) \<Longrightarrow> \<exists>x. search_record q n p = Inr x"
  using selftext_field_Inr [of p] by (auto simp: search_record_def)

text \<open>
  Claim C5: for a valid forum list and a positive limit \<open>n\<close> (and, for the search, a
  non-empty query), when every listing of the client ends without an error after at most
  \<open>n\<close> posts whose text is a string or empty, each fetcher returns a list of at most
  \<open>n\<close> times the number of forums records, and its \<open>k\<close>-th record is the one built from
  the \<open>k\<close>-th post in forum-iteration order and, within a forum, fetch order.
\<close>

theorem fetch_returns_bounded_ordered_list:
  assumes "\<not> forum_names_invalid (PList names)" and "\<not> limit_invalid (PInt n)"
    and "nonempty_string query"
    and "\<forall>i r. raised (reddit i r) = None \<and> length (yielded (reddit i r)) \<le> nat n
           \<and> (\<forall>p\<in>set (yielded (reddit i r)). isinstance_str (selftext p) \<or> \<not> truthy (selftext p))"
  shows "(\<exists>rs. result (download_hot_posts reddit (PList names) (PInt n)) = Inr (PList rs)
            \<and> length rs \<le> nat n * length names
            \<and> list_all2 (\<lambda>r (name, p). hot_record name p = Inr r) rs
                (fetched reddit (\<lambda>name. Hot name (PInt n)) 0 names))
       \<and> (\<exists>rs. result (search_posts reddit query (PList names) (PInt n)) = Inr (PList rs)
            \<and> length rs \<le> nat n * length names
            \<and> list_all2 (\<lambda>r (name, p). search_record query name p = Inr r) rs
                (fetched reddit (\<lambda>name. Search name query (PInt n)) 0 names))"
proof -
  from assms(4) have nr: "\<forall>i r. raised (reddit i r) = None"
    and len: "\<forall>i r. length (yielded (reddit i r)) \<le> nat n"
    and hot: "\<forall>i r. \<forall>p\<in>set (yielded (reddit i r)). \<forall>name. \<exists>x. hot_record name p = Inr x"
    and srch: "\<forall>i r. \<forall>p\<in>set (yielded (reddit i r)). \<forall>name. \<exists>x. search_record query name p = Inr x"
    using hot_record_Inr search_record_Inr by blast+
  have q: "truthy query \<and> isinstance_str query"
    using assms(3) by (cases query) auto
  have v: "\<not> (\<not> truthy (PList names) \<or> \<not> isinstance_list (PList names) \<or>
     list_ex (\<lambda>n. \<not> truthy n \<or> \<not> isinstance_str n) (elements (PList names)))"
    using assms(1) unfolding rejected_names by blast
  have l: "\<not> (\<not> isinstance_int (PInt n) \<or> le_zero (PInt n))"
    using assms(2) unfolding rejected_limit by blast
  from fetch_forums_total [OF nr hot] obtain rs1 pr1 md1 where
    f1: "fetch_forums reddit (\<lambda>name. Hot name (PInt n)) (Downloading_hot (PInt n)) hot_record
           names [] [] [] = (Inr rs1, pr1, md1)" by blast
  have r1: "result (download_hot_posts reddit (PList names) (PInt n)) = Inr (PList rs1)"
    using v l f1 by (simp add: download_hot_posts_def)
  from hot_posts_returned [OF r1]
  have a1: "list_all2 (\<lambda>r (name, p). hot_record name p = Inr r) rs1
              (fetched reddit (\<lambda>name. Hot name (PInt n)) 0 names)" by simp
  from list_all2_lengthD [OF a1] length_fetched [OF len]
  have b1: "length rs1 \<le> nat n * length names" by simp
  from fetch_forums_total [OF nr srch] obtain rs2 pr2 md2 where
    f2: "fetch_forums reddit (\<lambda>name. Search name query (PInt n)) (Downloading_keyword (PInt n))
           (search_record query) names [] [] [] = (Inr rs2, pr2, md2)" by blast
  have r2: "result (search_posts reddit query (PList names) (PInt n)) = Inr (PList rs2)"
    using v l q f2 by (simp add: search_posts_def)
  from search_posts_returned [OF r2]
  have a2: "list_all2 (\<lambda>r (name, p). search_record query name p = Inr r) rs2
              (fetched reddit (\<lambda>name. Search name query (PInt n)) 0 names)" by simp
  from list_all2_lengthD [OF a2] length_fetched [OF len]
  have b2: "length rs2 \<le> nat n * length names" by simp
  from r1 a1 b1 r2 a2 b2 show ?thesis by blast
qed

theorem fetch_returns_bounded_ordered_list_witness:
  "\<not> forum_names_invalid (PList [PStr ''python'', PStr ''rust''])
   \<and> \<not> limit_invalid (PInt 1)
   \<and> nonempty_string (PStr ''GPT-4'')
   \<and> (\<exists>rs. result (download_hot_posts one_post_api (PList [PStr ''python'', PStr ''rust'']) (PInt 1))
              = Inr (PList rs)
          \<and> length rs \<le> 2
          \<and> list_all2 (\<lambda>r (name, p). hot_record name p = Inr r) rs
              [(PStr ''python'', sample_post), (PStr ''rust'', sample_post)])"
proof -
  have y: "\<And>i r. yielded (one_post_api i r) = [sample_post]"
    and z: "\<And>i r. raised (one_post_api i r) = None"
    by (simp_all add: one_post_api_def)
  have s: "isinstance_str (selftext sample_post)"
    by (simp add: sample_post_def)
  show ?thesis
    using fetch_returns_bounded_ordered_list
      [of "[PStr ''python'', PStr ''rust'']" 1 "PStr ''GPT-4''" one_post_api]
    by (simp add: y z s numeral_2_eq_2)
qed

section \<open>The fields of a record\<close>

lemma hot_record_fields:
  assumes "hot_record name p = Inr r"
  shows "py_get r ''subreddit'' = Some name"
    and "\<exists>st. selftext_field p = Inr st \<and> py_get r ''selftext'' = Some st"
  using assms by (auto simp: hot_record_def split: sum.splits)

lemma search_record_fields:
  assumes "search_record query name p = Inr r"
  shows "py_get r ''subreddit'' = Some name"
    and "py_get r ''search_query'' = Some query"
    and "\<exists>st. selftext_field p = Inr st \<and> py_get r ''selftext'' = Some st"
  using assms by (auto simp: search_record_def split: sum.splits)

lemma selftext_field_str:
  assumes "selftext_field p = Inr st" and "selftext p = PStr s"
  shows "st = PNone \<or> (\<exists>t. st = PStr t \<and> length t \<le> 500 \<and> prefix t s)"
  using assms by (auto simp: selftext_field_def take_is_prefix split: if_splits)

lemma hot_record_or_none:
  assumes "hot_record name p = Inr r"
  shows "py_get r ''title'' = Some (or_none (title p))"
    and "py_get r ''score'' = Some (or_none (score p))"
    and "py_get r ''upvote_ratio'' = Some (or_none (upvote_ratio p))"
    and "py_get r ''num_comments'' = Some (or_none (num_comments p))"
    and "py_get r ''author'' = Some (or_none (author p))"
    and "py_get r ''url'' = Some (or_none (url p))"
    and "py_get r ''permalink'' = Some (or_none (permalink p))"
    and "py_get r ''created_utc'' = Some (or_none (created_utc p))"
    and "py_get r ''is_self'' = Some (or_none (is_self p))"
    and "py_get r ''flair'' = Some (or_none (link_flair_text p))"
    and "py_get r ''domain'' = Some (or_none (domain p))"
    and "\<not> truthy (selftext p) \<longrightarrow> py_get r ''selftext'' = Some PNone"
  using assms by (auto simp: hot_record_def selftext_field_def split: sum.splits)

lemma search_record_or_none:
  assumes "search_record query name p = Inr r"
  shows "py_get r ''title'' = Some (or_none (title p))"
    and "py_get r ''score'' = Some (or_none (score p))"
    and "py_get r ''upvote_ratio'' = Some (or_none (upvote_ratio p))"
    and "py_get r ''num_comments'' = Some (or_none (num_comments p))"
    and "py_get r ''author'' = Some (or_none (author p))"
    and "py_get r ''url'' = Some (or_none (url p))"
    and "py_get r ''permalink'' = Some (or_none (permalink p))"
    and "py_get r ''created_utc'' = Some (or_none (created_utc p))"
    and "py_get r ''is_self'' = Some (or_none (is_self p))"
    and "py_get r ''flair'' = Some (or_none (link_flair_text p))"
    and "py_get r ''domain'' = Some (or_none (domain p))"
    and "\<not> truthy (selftext p) \<longrightarrow> py_get r ''selftext'' = Some PNone"
  using assms by (auto simp: search_record_def selftext_field_def split: sum.splits)

lemma or_none_falsy: "\<not> truthy v \<Longrightarrow> or_none v = PNone"
  by (simp add: or_none_def)

text \<open>
  Claim C6: when a fetcher returns a list, its \<open>k\<close>-th record has as \<open>subreddit\<close> the forum
  name under which the \<open>k\<close>-th post was fetched, and a record of the search fetcher has
  the query as \<open>search_query\<close>. Neither is read off the post: the record is the same
  whatever the post's own forum attribute is.
\<close>

theorem records_carry_forum_and_query:
  "(result (download_hot_posts reddit subreddit_names limit) = Inr (PList rs) \<longrightarrow>
      list_all2 (\<lambda>r (name, p). py_get r ''subreddit'' = Some name) rs
        (fetched reddit (\<lambda>name. Hot name limit) 0 (elements subreddit_names)))
   \<and> (result (search_posts reddit query subreddit_names limit) = Inr (PList rs') \<longrightarrow>
      list_all2 (\<lambda>r (name, p). py_get r ''subreddit'' = Some name
                               \<and> py_get r ''search_query'' = Some query) rs'
        (fetched reddit (\<lambda>name. Search name query limit) 0 (elements subreddit_names)))
   \<and> hot_record name (p\<lparr>subreddit_attr := v\<rparr>) = hot_record name p
   \<and> search_record query name (p\<lparr>subreddit_attr := v\<rparr>) = search_record query name p"
proof -
  have a: "list_all2 (\<lambda>r (name, p). py_get r ''subreddit'' = Some name) rs
        (fetched reddit (\<lambda>name. Hot name limit) 0 (elements subreddit_names))"
    if "result (download_hot_posts reddit subreddit_names limit) = Inr (PList rs)"
    using hot_posts_returned [OF that]
    by (rule list_all2_mono) (auto dest: hot_record_fields(1))
  have b: "list_all2 (\<lambda>r (name, p). py_get r ''subreddit'' = Some name
                               \<and> py_get r ''search_query'' = Some query) rs'
        (fetched reddit (\<lambda>name. Search name query limit) 0 (elements subreddit_names))"
    if "result (search_posts reddit query subreddit_names limit) = Inr (PList rs')"
    using search_posts_returned [OF that]
    by (rule list_all2_mono) (auto dest: search_record_fields(1,2))
  have c: "hot_record name (p\<lparr>subreddit_attr := v\<rparr>) = hot_record name p"
    by (simp add: hot_record_def selftext_field_def split: sum.splits)
  have d: "search_record query name (p\<lparr>subreddit_attr := v\<rparr>) = search_record query name p"
    by (simp add: search_record_def selftext_field_def split: sum.splits)
  from a b c d show ?thesis by blast
qed

theorem records_carry_forum_and_query_witness:
  "\<exists>h r. result (download_hot_posts one_post_api (PList [PStr ''python'']) (PInt 1))
            = Inr (PList [h])
        \<and> py_get h ''subreddit'' = Some (PStr ''python'')
        \<and> result (search_posts one_post_api (PStr ''GPT-4'') (PList [PStr ''python'']) (PInt 1))
            = Inr (PList [r])
        \<and> py_get r ''subreddit'' = Some (PStr ''python'')
        \<and> py_get r ''search_query'' = Some (PStr ''GPT-4'')
        \<and> subreddit_attr sample_post = PStr ''elsewhere''"
proof -
  have y: "\<And>i r. yielded (one_post_api i r) = [sample_post]"
    and z: "\<And>i r. raised (one_post_api i r) = None"
    by (simp_all add: one_post_api_def)
  have t: "isinstance_str (selftext sample_post) \<or> \<not> truthy (selftext sample_post)"
    and a: "subreddit_attr sample_post = PStr ''elsewhere''"
    by (simp_all add: sample_post_def)
  obtain h where h: "hot_record (PStr ''python'') sample_post = Inr h"
    using hot_record_Inr [OF t] by blast
  obtain x where x: "search_record (PStr ''GPT-4'') (PStr ''python'') sample_post = Inr x"
    using search_record_Inr [OF t] by blast
  have rh: "result (download_hot_posts one_post_api (PList [PStr ''python'']) (PInt 1))
             = Inr (PList [h])"
    by (simp add: download_hot_posts_def y z h)
  have rx: "result (search_posts one_post_api (PStr ''GPT-4'') (PList [PStr ''python'']) (PInt 1))
             = Inr (PList [x])"
    by (simp add: search_posts_def y z x)
  from records_carry_forum_and_query
         [of one_post_api "PList [PStr ''python'']" "PInt 1" "[h]" "PStr ''GPT-4''" "[x]"] rh rx
  have "py_get h ''subreddit'' = Some (PStr ''python'')
      \<and> py_get x ''subreddit'' = Some (PStr ''python'')
      \<and> py_get x ''search_query'' = Some (PStr ''GPT-4'')"
    by (simp add: y)
  with rh rx a show ?thesis by blast
qed

text \<open>
  Claim C7: for every post whose text is a string, the \<open>selftext\<close> of the record built
  from it by either fetcher is the missing marker or a string of at most 500 characters
  that is a prefix of the post's text.
\<close>

theorem selftext_truncated_prefix:
  assumes "hot_record name p = Inr r \<or> search_record query name p = Inr r"
    and "selftext p = PStr s"
  shows "py_get r ''selftext'' = Some PNone
       \<or> (\<exists>t. py_get r ''selftext'' = Some (PStr t) \<and> length t \<le> 500 \<and> prefix t s)"
proof -
  from assms(1) obtain st where "selftext_field p = Inr st" and "py_get r ''selftext'' = Some st"
    using hot_record_fields(2) search_record_fields(3) by blast
  with selftext_field_str [OF _ assms(2)] show ?thesis by auto
qed


theorem selftext_truncated_prefix_witness:
  "\<exists>r. hot_record (PStr ''python'') sample_post = Inr r
      \<and> selftext sample_post = PStr ''body''
      \<and> (py_get r ''selftext'' = Some PNone
         \<or> (\<exists>t. py_get r ''selftext'' = Some (PStr t) \<and> length t \<le> 500 \<and> prefix t ''body''))"
proof -
  obtain x where x: "hot_record (PStr ''python'') sample_post = Inr x"
    using hot_record_Inr [of sample_post "PStr ''python''"]
    by (auto simp: sample_post_def)
  have s: "selftext sample_post = PStr ''body''"
    by (simp add: sample_post_def)
  from selftext_truncated_prefix [of "PStr ''python''" sample_post x PNone "''body''"] x s
  show ?thesis by blast
qed

text \<open>
  Claim C9: in the record built from a post by either fetcher, every field whose source
  value is falsy is the missing marker \<^verbatim>\<open>None\<close>; zero, \<^verbatim>\<open>False\<close> and the empty string are
  falsy; and a post with score or ratio zero gives the same record as one where that
  attribute is \<^verbatim>\<open>None\<close>.
\<close>

theorem falsy_fields_become_missing:
  assumes "hot_record name p = Inr r \<or> search_record query name p = Inr r"
  shows "(\<not> truthy (title p) \<longrightarrow> py_get r ''title'' = Some PNone)
       \<and> (\<not> truthy (score p) \<longrightarrow> py_get r ''score'' = Some PNone)
       \<and> (\<not> truthy (upvote_ratio p) \<longrightarrow> py_get r ''upvote_ratio'' = Some PNone)
       \<and> (\<not> truthy (num_comments p) \<longrightarrow> py_get r ''num_comments'' = Some PNone)
       \<and> (\<not> truthy (author p) \<longrightarrow> py_get r ''author'' = Some PNone)
       \<and> (\<not> truthy (url p) \<longrightarrow> py_get r ''url'' = Some PNone)
       \<and> (\<not> truthy (permalink p) \<longrightarrow> py_get r ''permalink'' = Some PNone)
       \<and> (\<not> truthy (created_utc p) \<longrightarrow> py_get r ''created_utc'' = Some PNone)
       \<and> (\<not> truthy (is_self p) \<longrightarrow> py_get r ''is_self'' = Some PNone)
       \<and> (\<not> truthy (selftext p) \<longrightarrow> py_get r ''selftext'' = Some PNone)
       \<and> (\<not> truthy (link_flair_text p) \<longrightarrow> py_get r ''flair'' = Some PNone)
       \<and> (\<not> truthy (domain p) \<longrightarrow> py_get r ''domain'' = Some PNone)
       \<and> \<not> truthy (PInt 0) \<and> \<not> truthy (PFloat 0) \<and> \<not> truthy (PBool False)
       \<and> \<not> truthy (PStr []) \<and> \<not> truthy PNone
       \<and> hot_record name (p\<lparr>score := PInt 0\<rparr>) = hot_record name (p\<lparr>score := PNone\<rparr>)
       \<and> hot_record name (p\<lparr>upvote_ratio := PFloat 0\<rparr>)
           = hot_record name (p\<lparr>upvote_ratio := PNone\<rparr>)
       \<and> search_record query name (p\<lparr>score := PInt 0\<rparr>)
           = search_record query name (p\<lparr>score := PNone\<rparr>)
       \<and> search_record query name (p\<lparr>upvote_ratio := PFloat 0\<rparr>)
           = search_record query name (p\<lparr>upvote_ratio := PNone\<rparr>)"
proof -
  have same: "hot_record name (p\<lparr>score := PInt 0\<rparr>) = hot_record name (p\<lparr>score := PNone\<rparr>)"
    "hot_record name (p\<lparr>upvote_ratio := PFloat 0\<rparr>) = hot_record name (p\<lparr>upvote_ratio := PNone\<rparr>)"
    "search_record query name (p\<lparr>score := PInt 0\<rparr>) = search_record query name (p\<lparr>score := PNone\<rparr>)"
    "search_record query name (p\<lparr>upvote_ratio := PFloat 0\<rparr>)
       = search_record query name (p\<lparr>upvote_ratio := PNone\<rparr>)"
    by (simp_all add: hot_record_def search_record_def selftext_field_def or_none_def
        split: sum.splits)
  from assms show ?thesis
  proof
    assume h: "hot_record name p = Inr r"
    show ?thesis
      by (simp add: hot_record_or_none [OF h] same or_none_falsy)
  next
    assume h: "search_record query name p = Inr r"
    show ?thesis
      by (simp add: search_record_or_none [OF h] same or_none_falsy)
  qed
qed

theorem falsy_fields_become_missing_witness:
  "\<exists>r. hot_record (PStr ''python'') sample_post = Inr r
      \<and> score sample_post = PInt 0 \<and> py_get r ''score'' = Some PNone
      \<and> upvote_ratio sample_post = PFloat 0 \<and> py_get r ''upvote_ratio'' = Some PNone
      \<and> is_self sample_post = PBool False \<and> py_get r ''is_self'' = Some PNone"
proof -
  obtain x where x: "hot_record (PStr ''python'') sample_post = Inr x"
    using hot_record_Inr [of sample_post "PStr ''python''"]
    by (auto simp: sample_post_def)
  have f: "score sample_post = PInt 0" "upvote_ratio sample_post = PFloat 0"
    "is_self sample_post = PBool False"
    by (simp_all add: sample_post_def)
  from falsy_fields_become_missing [of "PStr ''python''" sample_post x PNone] x
  have "py_get x ''score'' = Some PNone \<and> py_get x ''upvote_ratio'' = Some PNone
      \<and> py_get x ''is_self'' = Some PNone"
    by (simp add: f)
  with x f show ?thesis by blast
qed

section \<open>Deduplication\<close>

lemma keep_first_first_occurrences:
  "keep_first key seen xs = first_occurrences key (filter (\<lambda>x. key x \<notin> set seen) xs)"
proof (induction xs arbitrary: seen)
  case Nil
  show ?case by simp
next
  case (Cons x xs)
  have "filter (\<lambda>y. key y \<noteq> key x) (filter (\<lambda>y. key y \<notin> set seen) xs)
      = filter (\<lambda>y. key y \<notin> set (key x # seen)) xs"
    by (induction xs) simp_all
  with Cons.IH show ?case by simp
qed

lemma keep_first_empty: "keep_first key [] xs = first_occurrences key xs"
  by (simp add: keep_first_first_occurrences)

lemma keep_first_map:
  "keep_first key seen (map f xs) = map f (keep_first (\<lambda>x. key (f x)) seen xs)"
  by (induction xs arbitrary: seen) simp_all

lemma set_first_occurrences: "set (first_occurrences key xs) \<subseteq> set xs"
  by (induction key xs rule: first_occurrences.induct) auto

lemma keys_first_occurrences: "key ` set (first_occurrences key xs) = key ` set xs"
proof (induction key xs rule: first_occurrences.induct)
  case (1 key)
  show ?case by simp
next
  case (2 key x xs)
  then show ?case by auto
qed

lemma distinct_first_occurrences: "distinct (map key (first_occurrences key xs))"
proof (induction key xs rule: first_occurrences.induct)
  case (1 key)
  show ?case by simp
next
  case (2 key x xs)
  have "key x \<notin> key ` set (first_occurrences key (filter (\<lambda>y. key y \<noteq> key x) xs))"
    unfolding keys_first_occurrences by auto
  with 2 show ?case by simp
qed

lemma first_occurrences_idem:
  "first_occurrences key (first_occurrences key xs) = first_occurrences key xs"
proof (induction key xs rule: first_occurrences.induct)
  case (1 key)
  show ?case by simp
next
  case (2 key x xs)
  let ?ys = "first_occurrences key (filter (\<lambda>y. key y \<noteq> key x) xs)"
  have "\<forall>y\<in>set ?ys. key y \<noteq> key x"
    using set_first_occurrences [of key "filter (\<lambda>y. key y \<noteq> key x) xs"] by auto
  then have f: "filter (\<lambda>y. key y \<noteq> key x) ?ys = ?ys"
    by (simp only: filter_id_conv)
  have "first_occurrences key (first_occurrences key (x # xs))
      = x # first_occurrences key (filter (\<lambda>y. key y \<noteq> key x) ?ys)"
    by (simp only: first_occurrences.simps)
  also have "\<dots> = x # first_occurrences key ?ys"
    by (simp only: f)
  also have "\<dots> = x # ?ys"
    by (simp only: "2.IH")
  also have "\<dots> = first_occurrences key (x # xs)"
    by (simp only: first_occurrences.simps)
  finally show ?case .
qed

lemma find_filter_other:
  "k \<noteq> k' \<Longrightarrow> find (\<lambda>x. key x = k) (filter (\<lambda>y. key y \<noteq> k') xs) = find (\<lambda>x. key x = k) xs"
  by (induction xs) auto

lemma filter_first_occurrences:
  "filter (\<lambda>x. key x = k) (first_occurrences key xs)
     = (case find (\<lambda>x. key x = k) xs of None \<Rightarrow> [] | Some x \<Rightarrow> [x])"
proof (induction key xs rule: first_occurrences.induct)
  case (1 key)
  show ?case by simp
next
  case (2 key x xs)
  let ?ys = "first_occurrences key (filter (\<lambda>y. key y \<noteq> key x) xs)"
  show ?case
  proof (cases "key x = k")
    case True
    have "\<forall>y\<in>set ?ys. key y \<noteq> k"
      using set_first_occurrences [of key "filter (\<lambda>y. key y \<noteq> key x) xs"] True by auto
    then have "filter (\<lambda>x. key x = k) ?ys = []"
      by (simp add: filter_empty_conv)
    with True show ?thesis by simp
  next
    case False
    then have "k \<noteq> key x" by blast
    from find_filter_other [of k "key x" key xs, OF this] 2 False show ?thesis by simp
  qed
qed

lemma post_record_is_dict: "post_record r \<Longrightarrow> is_dict r"
  by (cases r) auto

lemma post_record_key: "post_record r \<Longrightarrow> plain_key (py_get r ''permalink'')"
  by (cases r) auto

lemma post_record_has_permalink: "post_record r \<Longrightarrow> ''permalink'' \<in> set (keys r)"
proof (cases r)
  case (PDict kvs)
  assume "post_record r"
  with PDict have "map_of kvs ''permalink'' \<noteq> None"
    by (cases "map_of kvs ''permalink''") auto
  then have "''permalink'' \<in> fst ` set kvs" by (simp add: map_of_eq_None_iff)
  with PDict show ?thesis by simp
qed auto

lemma cell_frame_row:
  "c \<in> set cols \<Longrightarrow> cell \<lparr>columns = cols, rows = rws\<rparr> c (frame_row cols r) = py_get r c"
  by (simp add: cell_def frame_row_def map_of_zip_map)

lemma set_keep_first_id: "set (keep_first id [] xs) = set xs"
  using keys_first_occurrences [of id xs] by (simp add: keep_first_empty)

lemma save_to_csv_records:
  assumes "rs \<noteq> []" and "list_all post_record rs"
  defines "cols \<equiv> keep_first id [] (concat (map keys rs))"
  defines "df \<equiv> \<lparr>columns = cols,
                  rows = map (frame_row cols) (first_occurrences (\<lambda>r. py_get r ''permalink'') rs)\<rparr>"
  shows "save_to_csv (PList rs) filename fs =
           Some \<lparr>returned = Inr (Some df),
                 console = [Removed_duplicates (int (length rs) - int (length (rows df))),
                            Saving_cleaned (length (rows df)) filename,
                            Data_saved filename],
                 disk = fs(filename \<mapsto> df)\<rparr>"
proof -
  let ?df0 = "\<lparr>columns = cols, rows = map (frame_row cols) rs\<rparr>"
  from assms(2) have d: "list_all is_dict rs"
    by (auto simp: list_all_iff post_record_is_dict)
  then have frame: "DataFrame (PList rs) = Some ?df0"
    by (simp add: DataFrame_def cols_def Let_def)
  from assms(1) obtain r where r: "r \<in> set rs" by (cases rs) auto
  with assms(2) have "post_record r" by (simp add: list_all_iff)
  from post_record_has_permalink [OF this] r
  have "''permalink'' \<in> set (concat (map keys rs))" by auto
  then have c: "''permalink'' \<in> set cols"
    by (simp add: cols_def set_keep_first_id)
  have k: "\<And>x. cell ?df0 ''permalink'' (frame_row cols x) = py_get x ''permalink''"
    using cell_frame_row [OF c] by simp
  have p: "list_all (\<lambda>row. plain_key (cell ?df0 ''permalink'' row)) (rows ?df0)"
    using assms(2) by (simp add: list_all_iff k post_record_key)
  have "keep_first (cell ?df0 ''permalink'') [] (rows ?df0)
      = map (frame_row cols) (first_occurrences (\<lambda>r. py_get r ''permalink'') rs)"
    by (simp add: keep_first_map k keep_first_empty)
  then have dd: "drop_duplicates ''permalink'' ?df0 = Some (Inr df)"
    using c p by (simp add: drop_duplicates_def df_def)
  from assms(1) have t: "truthy (PList rs)" by simp
  show ?thesis
    unfolding save_to_csv_def using t
    by (simp add: frame dd Let_def)
qed

section \<open>What the persister does\<close>

text \<open>
  Claim C8: on a falsy input (the empty list and \<^verbatim>\<open>None\<close> are falsy) the persister builds
  no table, leaves the files as they were, prints its notice and returns \<^verbatim>\<open>None\<close>; on a
  non-empty list of post records it writes the table of the first occurrences to the named
  file and returns it.
\<close>

theorem persister_empty_or_writes:
  "(\<not> truthy all_posts \<longrightarrow>
      save_to_csv all_posts filename fs
        = Some \<lparr>returned = Inr None, console = [No_posts_to_save], disk = fs\<rparr>)
   \<and> \<not> truthy (PList []) \<and> \<not> truthy PNone
   \<and> (rs \<noteq> [] \<and> list_all post_record rs \<longrightarrow>
        (\<exists>s df. save_to_csv (PList rs) filename fs = Some s
           \<and> returned s = Inr (Some df)
           \<and> disk s = fs(filename \<mapsto> df)
           \<and> rows df = map (frame_row (columns df))
                          (first_occurrences (\<lambda>r. py_get r ''permalink'') rs)))"
proof -
  have a: "save_to_csv all_posts filename fs
        = Some \<lparr>returned = Inr None, console = [No_posts_to_save], disk = fs\<rparr>"
    if "\<not> truthy all_posts"
    using that by (simp add: save_to_csv_def)
  have b: "\<exists>s df. save_to_csv (PList rs) filename fs = Some s
           \<and> returned s = Inr (Some df)
           \<and> disk s = fs(filename \<mapsto> df)
           \<and> rows df = map (frame_row (columns df))
                          (first_occurrences (\<lambda>r. py_get r ''permalink'') rs)"
    if "rs \<noteq> []" and "list_all post_record rs"
    using save_to_csv_records [OF that, of filename fs] by simp
  from a b show ?thesis by simp
qed

theorem persister_empty_or_writes_witness:
  "\<not> truthy (PInt 0)
   \<and> save_to_csv (PInt 0) ''reddit_data.csv'' no_files
       = Some \<lparr>returned = Inr None, console = [No_posts_to_save], disk = no_files\<rparr>
   \<and> sample_records \<noteq> [] \<and> list_all post_record sample_records
   \<and> (\<exists>s df. save_to_csv (PList sample_records) ''reddit_data.csv'' no_files = Some s
          \<and> returned s = Inr (Some df)
          \<and> disk s = no_files(''reddit_data.csv'' \<mapsto> df)
          \<and> length (rows df) = 2)"
proof -
  have v: "sample_records \<noteq> []" "list_all post_record sample_records"
    by (simp_all add: sample_records_def)
  have n: "length (first_occurrences (\<lambda>r. py_get r ''permalink'') sample_records) = 2"
    by (simp add: sample_records_def)
  have t: "\<not> truthy (PInt 0)" by simp
  from persister_empty_or_writes [of "PInt 0" "''reddit_data.csv''" no_files sample_records] v t
  obtain s df where "save_to_csv (PInt 0) ''reddit_data.csv'' no_files
       = Some \<lparr>returned = Inr None, console = [No_posts_to_save], disk = no_files\<rparr>"
    and "save_to_csv (PList sample_records) ''reddit_data.csv'' no_files = Some s"
    and "returned s = Inr (Some df)"
    and "disk s = no_files(''reddit_data.csv'' \<mapsto> df)"
    and "rows df = map (frame_row (columns df))
                          (first_occurrences (\<lambda>r. py_get r ''permalink'') sample_records)"
    by blast
  with v t n show ?thesis by auto
qed

lemma permalink_column:
  assumes "rs \<noteq> []" and "list_all post_record rs"
  shows "''permalink'' \<in> set (keep_first id [] (concat (map keys rs)))"
proof -
  from assms(1) obtain r where r: "r \<in> set rs" by (cases rs) auto
  with assms(2) have "post_record r" by (simp add: list_all_iff)
  from post_record_has_permalink [OF this] r
  have "''permalink'' \<in> set (concat (map keys rs))" by auto
  then show ?thesis by (simp add: set_keep_first_id)
qed

lemma first_occurrences_nonempty: "xs \<noteq> [] \<Longrightarrow> first_occurrences key xs \<noteq> []"
  by (cases xs) simp_all

lemma list_all_first_occurrences:
  "list_all P xs \<Longrightarrow> list_all P (first_occurrences key xs)"
  using set_first_occurrences [of key xs] by (auto simp: list_all_iff)

text \<open>
  Claim C4: for a non-empty list of post records the persister returns the table of the
  first occurrences by \<open>permalink\<close>: a record stays, every later record with the same
  permalink goes, and the permalinks that stay are distinct. Run again on the records that
  stayed, it returns a table with the same number of rows; run again on the same list, it
  returns the same table.
\<close>

theorem deduplication_idempotent:
  assumes "rs \<noteq> []" and "list_all post_record rs"
  shows "\<exists>s1 df1 s2 df2 s3.
           save_to_csv (PList rs) filename fs = Some s1
         \<and> returned s1 = Inr (Some df1)
         \<and> rows df1 = map (frame_row (columns df1))
                         (first_occurrences (\<lambda>r. py_get r ''permalink'') rs)
         \<and> distinct (map (\<lambda>r. py_get r ''permalink'')
                         (first_occurrences (\<lambda>r. py_get r ''permalink'') rs))
         \<and> save_to_csv (PList (first_occurrences (\<lambda>r. py_get r ''permalink'') rs))
               filename (disk s1) = Some s2
         \<and> returned s2 = Inr (Some df2)
         \<and> length (rows df2) = length (rows df1)
         \<and> save_to_csv (PList rs) filename (disk s1) = Some s3
         \<and> returned s3 = returned s1"
proof -
  let ?key = "\<lambda>r. py_get r ''permalink''"
  let ?kept = "first_occurrences ?key rs"
  from save_to_csv_records [OF assms, of filename fs]
  obtain s1 df1 where
    s1: "save_to_csv (PList rs) filename fs = Some s1" and
    r1: "returned s1 = Inr (Some df1)" and
    d1: "rows df1 = map (frame_row (columns df1)) ?kept"
    by simp
  have k: "?kept \<noteq> []" "list_all post_record ?kept"
    using assms by (simp_all add: first_occurrences_nonempty list_all_first_occurrences)
  from save_to_csv_records [OF k, of filename "disk s1"]
  obtain s2 df2 where
    s2: "save_to_csv (PList ?kept) filename (disk s1) = Some s2" and
    r2: "returned s2 = Inr (Some df2)" and
    d2: "rows df2 = map (frame_row (columns df2)) (first_occurrences ?key ?kept)"
    by simp
  from d1 d2 have l: "length (rows df2) = length (rows df1)"
    by (simp add: first_occurrences_idem)
  from save_to_csv_records [OF assms, of filename "disk s1"]
    save_to_csv_records [OF assms, of filename fs] s1
  obtain s3 where
    s3: "save_to_csv (PList rs) filename (disk s1) = Some s3" and
    r3: "returned s3 = returned s1"
    by auto
  have "distinct (map ?key ?kept)" by (rule distinct_first_occurrences)
  with s1 r1 d1 s2 r2 l s3 r3 show ?thesis by blast
qed

theorem deduplication_idempotent_witness:
  "sample_records \<noteq> [] \<and> list_all post_record sample_records
   \<and> first_occurrences (\<lambda>r. py_get r ''permalink'') sample_records
       = [PDict [(''title'', PStr ''a''), (''permalink'', PNone)],
          PDict [(''title'', PStr ''b''), (''permalink'', PStr ''/r/python/1'')]]
   \<and> (\<exists>s1 df1 s2 df2.
         save_to_csv (PList sample_records) ''reddit_data.csv'' no_files = Some s1
       \<and> returned s1 = Inr (Some df1)
       \<and> save_to_csv (PList (first_occurrences (\<lambda>r. py_get r ''permalink'') sample_records))
             ''reddit_data.csv'' (disk s1) = Some s2
       \<and> returned s2 = Inr (Some df2)
       \<and> length (rows df2) = length (rows df1)
       \<and> length (rows df1) = 2)"
proof -
  have v: "sample_records \<noteq> []" "list_all post_record sample_records"
    by (simp_all add: sample_records_def)
  have n: "first_occurrences (\<lambda>r. py_get r ''permalink'') sample_records
       = [PDict [(''title'', PStr ''a''), (''permalink'', PNone)],
          PDict [(''title'', PStr ''b''), (''permalink'', PStr ''/r/python/1'')]]"
    by (simp add: sample_records_def)
  from deduplication_idempotent [OF v, of "''reddit_data.csv''" no_files]
  obtain s1 df1 s2 df2 where
    "save_to_csv (PList sample_records) ''reddit_data.csv'' no_files = Some s1"
    "returned s1 = Inr (Some df1)"
    "rows df1 = map (frame_row (columns df1))
                  (first_occurrences (\<lambda>r. py_get r ''permalink'') sample_records)"
    "save_to_csv (PList (first_occurrences (\<lambda>r. py_get r ''permalink'') sample_records))
       ''reddit_data.csv'' (disk s1) = Some s2"
    "returned s2 = Inr (Some df2)"
    "length (rows df2) = length (rows df1)"
    by blast
  moreover from this(3) have "length (rows df1) = 2" by (simp add: n)
  ultimately show ?thesis using v n by blast
qed

text \<open>
  Claim C10: the missing marker is one deduplication key. When two or more records of the
  input have the permalink \<^verbatim>\<open>None\<close>, the returned table has exactly one row with a
  \<^verbatim>\<open>None\<close> permalink, the row of the first such record, whatever the other fields of
  these records are.
\<close>

theorem missing_permalinks_collapse:
  assumes "list_all post_record rs"
    and "2 \<le> length (filter (\<lambda>r. py_get r ''permalink'' = Some PNone) rs)"
  shows "\<exists>s df r0.
           save_to_csv (PList rs) filename fs = Some s
         \<and> returned s = Inr (Some df)
         \<and> find (\<lambda>r. py_get r ''permalink'' = Some PNone) rs = Some r0
         \<and> filter (\<lambda>row. cell df ''permalink'' row = Some PNone) (rows df)
             = [frame_row (columns df) r0]"
proof -
  let ?key = "\<lambda>r. py_get r ''permalink''"
  let ?cols = "keep_first id [] (concat (map keys rs))"
  let ?df = "\<lparr>columns = ?cols, rows = map (frame_row ?cols) (first_occurrences ?key rs)\<rparr>"
  from assms(2) have ne: "rs \<noteq> []" by auto
  from assms(2) have "filter (\<lambda>r. ?key r = Some PNone) rs \<noteq> []" by auto
  then have "find (\<lambda>r. ?key r = Some PNone) rs \<noteq> None"
    by (auto simp: find_None_iff filter_empty_conv)
  then obtain r0 where r0: "find (\<lambda>r. ?key r = Some PNone) rs = Some r0" by blast
  from save_to_csv_records [OF ne assms(1), of filename fs]
  obtain s where
    s: "save_to_csv (PList rs) filename fs = Some s" and
    r: "returned s = Inr (Some ?df)"
    by simp
  have c: "\<And>x. cell ?df ''permalink'' (frame_row ?cols x) = ?key x"
    using cell_frame_row [OF permalink_column [OF ne assms(1)]] by simp
  have "filter (\<lambda>row. cell ?df ''permalink'' row = Some PNone) (rows ?df)
      = map (frame_row ?cols) (filter (\<lambda>r. ?key r = Some PNone) (first_occurrences ?key rs))"
    by (simp add: filter_map comp_def c)
  also have "\<dots> = [frame_row ?cols r0]"
    by (simp add: filter_first_occurrences r0)
  finally have "filter (\<lambda>row. cell ?df ''permalink'' row = Some PNone) (rows ?df)
      = [frame_row (columns ?df) r0]" by simp
  with s r r0 show ?thesis by blast
qed

theorem missing_permalinks_collapse_witness:
  "list_all post_record sample_records
   \<and> 2 \<le> length (filter (\<lambda>r. py_get r ''permalink'' = Some PNone) sample_records)
   \<and> (\<exists>s df. save_to_csv (PList sample_records) ''reddit_data.csv'' no_files = Some s
         \<and> returned s = Inr (Some df)
         \<and> filter (\<lambda>row. cell df ''permalink'' row = Some PNone) (rows df)
             = [frame_row (columns df) (PDict [(''title'', PStr ''a''), (''permalink'', PNone)])])"
proof -
  have v: "list_all post_record sample_records"
    "2 \<le> length (filter (\<lambda>r. py_get r ''permalink'' = Some PNone) sample_records)"
    by (simp_all add: sample_records_def)
  have f: "find (\<lambda>r. py_get r ''permalink'' = Some PNone) sample_records
             = Some (PDict [(''title'', PStr ''a''), (''permalink'', PNone)])"
    by (simp add: sample_records_def)
  from missing_permalinks_collapse [OF v, of "''reddit_data.csv''" no_files]
  obtain s df r0 where
    "save_to_csv (PList sample_records) ''reddit_data.csv'' no_files = Some s"
    "returned s = Inr (Some df)"
    "find (\<lambda>r. py_get r ''permalink'' = Some PNone) sample_records = Some r0"
    "filter (\<lambda>row. cell df ''permalink'' row = Some PNone) (rows df)
       = [frame_row (columns df) r0]"
    by blast
  with f v show ?thesis by auto
qed

section \<open>The driver after a failed fetch\<close>

lemma py_add_cases:
  "py_add (PBool False) (PList ys) = Some (Inl TypeError)"
  "py_add (PList xs) (PBool False) = Some (Inl TypeError)"
  "py_add (PBool False) (PBool False) = Some (Inr (PInt 0))"
  "py_add (PList xs) (PList ys) = Some (Inr (PList (xs @ ys)))"
  by (simp_all add: py_add_def)

lemma unreachable_fetches:
  "download_hot_posts unreachable_api subreddits (PInt 10)
     = \<lparr>result = Inr (PBool False),
        out = [Downloading_hot (PInt 10) (PStr ''MachineLearning''),
               Unexpected_error OtherException],
        calls = [Hot (PStr ''MachineLearning'') (PInt 10)]\<rparr>"
  "search_posts (\<lambda>i. unreachable_api (f i)) (PStr ''GPT-4'') subreddits (PInt 10)
     = \<lparr>result = Inr (PBool False),
        out = [Downloading_keyword (PInt 10) (PStr ''MachineLearning''),
               Unexpected_error OtherException],
        calls = [Search (PStr ''MachineLearning'') (PStr ''GPT-4'') (PInt 10)]\<rparr>"
  by (simp_all add: download_hot_posts_def search_posts_def subreddits_def unreachable_api_def)

text \<open>
  Claim C3 says that the concatenation in the driver fails whenever a fetch has returned
  \<^verbatim>\<open>False\<close>. It does so when exactly one has: a list and a boolean do not add, the
  \<^verbatim>\<open>TypeError\<close> is unhandled and nothing is saved. When both have, \<^verbatim>\<open>False + False\<close> is
  the integer 0 and nothing is raised: the persister takes the 0 for an empty input, prints
  its notice, writes no file, and the run ends normally. The driver ends as these lines do
  on the two values the fetchers return.
\<close>

theorem failed_fetch_in_driver:
  "combine_and_save (PBool False) (PList ys) fs
     = Some \<lparr>ended = Inl TypeError, transcript = [], disk_after = fs\<rparr>
   \<and> combine_and_save (PList xs) (PBool False) fs
     = Some \<lparr>ended = Inl TypeError, transcript = [], disk_after = fs\<rparr>
   \<and> combine_and_save (PBool False) (PBool False) fs
     = Some \<lparr>ended = Inr (), transcript = [No_posts_to_save], disk_after = fs\<rparr>
   \<and> (result (download_hot_posts reddit subreddits (PInt 10)) = Inr hot_posts
        \<and> result (search_posts
                    (\<lambda>i. reddit (length (calls (download_hot_posts reddit subreddits (PInt 10))) + i))
                    (PStr ''GPT-4'') subreddits (PInt 10)) = Inr search_results
      \<longrightarrow> map_option ended (driver reddit fs)
            = map_option ended (combine_and_save hot_posts search_results fs)
          \<and> map_option disk_after (driver reddit fs)
            = map_option disk_after (combine_and_save hot_posts search_results fs))"
proof -
  have a: "combine_and_save (PBool False) (PList ys) fs
     = Some \<lparr>ended = Inl TypeError, transcript = [], disk_after = fs\<rparr>"
    by (simp add: combine_and_save_def py_add_cases)
  have b: "combine_and_save (PList xs) (PBool False) fs
     = Some \<lparr>ended = Inl TypeError, transcript = [], disk_after = fs\<rparr>"
    by (simp add: combine_and_save_def py_add_cases)
  have c: "combine_and_save (PBool False) (PBool False) fs
     = Some \<lparr>ended = Inr (), transcript = [No_posts_to_save], disk_after = fs\<rparr>"
    by (simp add: combine_and_save_def py_add_cases save_to_csv_def)
  have d: "map_option ended (driver reddit fs)
            = map_option ended (combine_and_save hot_posts search_results fs)
          \<and> map_option disk_after (driver reddit fs)
            = map_option disk_after (combine_and_save hot_posts search_results fs)"
    if "result (download_hot_posts reddit subreddits (PInt 10)) = Inr hot_posts"
      and "result (search_posts
                    (\<lambda>i. reddit (length (calls (download_hot_posts reddit subreddits (PInt 10))) + i))
                    (PStr ''GPT-4'') subreddits (PInt 10)) = Inr search_results"
    using that by (simp add: driver_def Let_def option.map_comp comp_def)
  from a b c d show ?thesis by blast
qed

theorem failed_fetch_in_driver_witness:
  "combine_and_save (PBool False) (PList sample_records) no_files
     = Some \<lparr>ended = Inl TypeError, transcript = [], disk_after = no_files\<rparr>
   \<and> combine_and_save (PList sample_records) (PBool False) no_files
     = Some \<lparr>ended = Inl TypeError, transcript = [], disk_after = no_files\<rparr>
   \<and> map_option ended (driver unreachable_api no_files)
       = map_option ended (combine_and_save (PBool False) (PBool False) no_files)"
proof -
  have h: "result (download_hot_posts unreachable_api subreddits (PInt 10)) = Inr (PBool False)"
    by (simp add: unreachable_fetches(1))
  have s: "result (search_posts
      (\<lambda>i. unreachable_api (length (calls (download_hot_posts unreachable_api subreddits (PInt 10))) + i))
      (PStr ''GPT-4'') subreddits (PInt 10)) = Inr (PBool False)"
    by (simp add: unreachable_fetches(2))
  from failed_fetch_in_driver
    [of sample_records no_files sample_records unreachable_api "PBool False" "PBool False"] h s
  show ?thesis by simp
qed

text \<open>
  The case that claim C3 gets wrong, at a client whose every request fails: both fetchers
  return \<^verbatim>\<open>False\<close>, and the driver ends normally with the disk untouched.
\<close>

theorem both_fetches_failing_counterexample:
  "result (download_hot_posts unreachable_api subreddits (PInt 10)) = Inr (PBool False)
   \<and> result (search_posts unreachable_api (PStr ''GPT-4'') subreddits (PInt 10))
       = Inr (PBool False)
   \<and> py_add (PBool False) (PBool False) = Some (Inr (PInt 0))
   \<and> map_option ended (combine_and_save (PBool False) (PBool False) no_files) = Some (Inr ())
   \<and> map_option ended (driver unreachable_api no_files) = Some (Inr ())
   \<and> map_option disk_after (driver unreachable_api no_files) = Some no_files"
proof -
  have s: "result (search_posts unreachable_api (PStr ''GPT-4'') subreddits (PInt 10))
       = Inr (PBool False)"
    using unreachable_fetches(2) [of "\<lambda>i. i"] by simp
  have c: "combine_and_save (PBool False) (PBool False) no_files
       = Some \<lparr>ended = Inr (), transcript = [No_posts_to_save], disk_after = no_files\<rparr>"
    by (simp add: combine_and_save_def py_add_cases save_to_csv_def)
  have d: "map_option ended (driver unreachable_api no_files) = Some (Inr ())"
    "map_option disk_after (driver unreachable_api no_files) = Some no_files"
    by (simp_all add: driver_def unreachable_fetches c)
  from s c d show ?thesis by (simp add: unreachable_fetches(1) py_add_cases)
qed

end
